theory Spec2Isabelle
  imports Main "HOL-Library.Word" "HOL-Library.Sublist"
begin

unbundle bit_operations_syntax

section \<open>togo: the domain model of package \<open>model\<close>\<close>

text \<open>
  The development embeds the Go package \<open>internal/model\<close>: the status enumeration,
  the sentinel errors, the identifier type, the task filter and the task factory.
  Go strings are byte sequences and are modelled as \<open>string\<close> (a list of 8-bit
  characters); a pointer that may be nil is an \<open>option\<close>; a slice keeps the difference
  between nil and empty; a Go \<open>int\<close> is an \<open>int\<close> (no arithmetic in this package can
  overflow one).
\<close>

subsection \<open>Status (\<open>task_status.go\<close>)\<close>

type_synonym TaskStatus = string

definition StatusPool :: TaskStatus where
  "StatusPool = ''pool''"

definition StatusToday :: TaskStatus where
  "StatusToday = ''today''"

definition StatusDone :: TaskStatus where
  "StatusDone = ''done''"

text \<open>
  \<^verbatim>\<open>switch s { case StatusPool, StatusToday, StatusDone: return true; default: return false }\<close>
  The switch compares the string with each case value in turn.
\<close>

definition Valid :: "TaskStatus \<Rightarrow> bool" where
  "Valid s =
     (if s = StatusPool then True
      else if s = StatusToday then True
      else if s = StatusDone then True
      else False)"

definition String_status :: "TaskStatus \<Rightarrow> string" where
  "String_status s = s"

subsection \<open>Sentinel errors (\<open>errors.go\<close>)\<close>

text \<open>
  \<open>errors.New\<close> allocates a fresh \<open>errorString\<close> object holding the message and
  returns a pointer to it; two error values made by \<open>errors.New\<close> are equal under
  \<open>==\<close> exactly when they are the same pointer, whatever their messages. The heap of
  such objects is the list of the messages allocated so far, and the address of an object
  is its position in that list.
\<close>

type_synonym error_heap = "string list"

datatype error =
    ErrorString nat
  | ValidationError string string

definition errors_New :: "string \<Rightarrow> error_heap \<Rightarrow> error \<times> error_heap" where
  "errors_New text h = (ErrorString (length h), h @ [text])"

text \<open>The message of an error, read through the heap (\<open>Error()\<close>).\<close>

fun Error :: "error_heap \<Rightarrow> error \<Rightarrow> string" where
  "Error h (ErrorString a) = (if a < length h then h ! a else [])"
| "Error h (ValidationError field reason) =
     ''validation failed for '' @ field @ '': '' @ reason"

text \<open>
  The package-level \<open>var ( ... )\<close> block runs the five \<open>errors.New\<close> calls in the order
  of their declaration, starting from the heap as it is when the package is initialised.
\<close>

definition heap0 :: error_heap where
  "heap0 = []"

definition ErrTaskNotFound :: error where
  "ErrTaskNotFound = fst (errors_New ''task not found'' heap0)"

definition heap1 :: error_heap where
  "heap1 = snd (errors_New ''task not found'' heap0)"

definition ErrInvalidStatus :: error where
  "ErrInvalidStatus = fst (errors_New ''invalid task status'' heap1)"

definition heap2 :: error_heap where
  "heap2 = snd (errors_New ''invalid task status'' heap1)"

definition ErrInvalidStateTransition :: error where
  "ErrInvalidStateTransition = fst (errors_New ''invalid state transition'' heap2)"

definition heap3 :: error_heap where
  "heap3 = snd (errors_New ''invalid state transition'' heap2)"

definition ErrEmptyTitle :: error where
  "ErrEmptyTitle = fst (errors_New ''task title cannot be empty'' heap3)"

definition heap4 :: error_heap where
  "heap4 = snd (errors_New ''task title cannot be empty'' heap3)"

definition ErrDuplicateTaskID :: error where
  "ErrDuplicateTaskID = fst (errors_New ''task with this ID already exists'' heap4)"

definition heap5 :: error_heap where
  "heap5 = snd (errors_New ''task with this ID already exists'' heap4)"

subsection \<open>Identifiers (\<open>task_id.go\<close>)\<close>

text \<open>
  \<open>type TaskID uuid.UUID\<close>, and \<open>uuid.UUID\<close> is the array type \<open>[16]byte\<close>: exactly the
  byte lists of length 16. Go compares arrays element by element.
\<close>

typedef UUID = "{bs :: 8 word list. length bs = 16}"
  morphisms uuid_bytes make_UUID
  by (rule exI [of _ "replicate 16 0"]) simp

type_synonym TaskID = UUID

text \<open>
  Modelled from the spec: the package \<open>github.com/google/uuid\<close> (\<open>uuid.Nil\<close>,
  \<open>uuid.New\<close>, \<open>UUID.String\<close>, \<open>uuid.Parse\<close> and their helpers \<open>encodeHex\<close>,
  \<open>xtob\<close>, \<open>xvalues\<close>) is a dependency whose code is not part of the repository's
  sources. The specification says that an identifier is ``a 128-bit random value rendered
  as a canonical string'' with ``a reserved all-zero sentinel''; the canonical string is the
  RFC 4122 text form \<open>xxxxxxxx-xxxx-xxxx-xxxx-xxxxxxxxxxxx\<close> in lower-case hexadecimal, and
  the definitions below follow the library's documented behaviour: \<open>Parse\<close> accepts
  that form, the \<open>urn:uuid:\<close> form, the 38-byte braced form (of which only the middle 36
  bytes are examined) and the 32-digit raw form, with digits in either case.
\<close>

definition Nil_UUID :: UUID where
  "Nil_UUID = make_UUID (replicate 16 0)"

definition hextable :: string where
  "hextable = ''0123456789abcdef''"

fun hex_Encode :: "8 word list \<Rightarrow> string" where
  "hex_Encode [] = []"
| "hex_Encode (v # src) =
     hextable ! unat (drop_bit 4 v) # hextable ! unat (v AND 0x0f) # hex_Encode src"

definition encodeHex :: "UUID \<Rightarrow> string" where
  "encodeHex uuid =
     (let b = uuid_bytes uuid in
      hex_Encode (take 4 b) @ ''-'' @
      hex_Encode (take 2 (drop 4 b)) @ ''-'' @
      hex_Encode (take 2 (drop 6 b)) @ ''-'' @
      hex_Encode (take 2 (drop 8 b)) @ ''-'' @
      hex_Encode (drop 10 b))"

definition String_UUID :: "UUID \<Rightarrow> string" where
  "String_UUID uuid = encodeHex uuid"

text \<open>The table \<open>xvalues\<close>: the value of a hexadecimal digit, 255 for any other byte.\<close>

definition xvalues :: "char \<Rightarrow> 8 word" where
  "xvalues c =
     (let n = (of_char c :: nat) in
      if 48 \<le> n \<and> n \<le> 57 then of_nat (n - 48)
      else if 65 \<le> n \<and> n \<le> 70 then of_nat (n - 55)
      else if 97 \<le> n \<and> n \<le> 102 then of_nat (n - 87)
      else 255)"

definition xtob :: "char \<Rightarrow> char \<Rightarrow> 8 word \<times> bool" where
  "xtob x1 x2 =
     (let b1 = xvalues x1; b2 = xvalues x2
      in (push_bit 4 b1 OR b2, b1 \<noteq> 255 \<and> b2 \<noteq> 255))"

datatype uuid_error =
    InvalidLengthError nat
  | InvalidUrnPrefix string
  | InvalidUUIDFormat

definition ascii_lower :: "char \<Rightarrow> char" where
  "ascii_lower c =
     (let n = (of_char c :: nat) in if 65 \<le> n \<and> n \<le> 90 then char_of (n + 32) else c)"

text \<open>\<open>strings.EqualFold\<close> against the ASCII text \<open>urn:uuid:\<close>.\<close>

definition EqualFold :: "string \<Rightarrow> string \<Rightarrow> bool" where
  "EqualFold s t = (map ascii_lower s = map ascii_lower t)"

definition uuid_positions :: "nat list" where
  "uuid_positions = [0, 2, 4, 6, 9, 11, 14, 16, 19, 21, 24, 26, 28, 30, 32, 34]"

text \<open>
  The decoding loop: for each pair (index \<open>i\<close> of the array, offset \<open>x\<close> in the text) it
  decodes two digits and stores the byte; the first bad pair stops it with the array as
  filled so far.
\<close>

fun parse_loop :: "string \<Rightarrow> (nat \<times> nat) list \<Rightarrow> 8 word list \<Rightarrow> 8 word list \<times> bool" where
  "parse_loop s [] uuid = (uuid, True)"
| "parse_loop s ((i, x) # rest) uuid =
     (case xtob (s ! x) (s ! (x + 1)) of
        (v, ok) \<Rightarrow> if \<not> ok then (uuid, False) else parse_loop s rest (uuid[i := v]))"

text \<open>
  The loop of the 32-digit form, \<open>uuid[i], ok = xtob(s[i*2], s[i*2+1])\<close>, stores the byte
  before it looks at \<open>ok\<close>.
\<close>

fun parse_raw_loop :: "string \<Rightarrow> nat list \<Rightarrow> 8 word list \<Rightarrow> 8 word list \<times> bool" where
  "parse_raw_loop s [] uuid = (uuid, True)"
| "parse_raw_loop s (i # rest) uuid =
     (case xtob (s ! (i * 2)) (s ! (i * 2 + 1)) of
        (v, ok) \<Rightarrow> if \<not> ok then (uuid[i := v], False) else parse_raw_loop s rest (uuid[i := v]))"

text \<open>The common tail of \<open>Parse\<close>; it is only reached with at least 36 bytes in \<open>s\<close>.\<close>

definition parse_dashed :: "string \<Rightarrow> 8 word list \<times> uuid_error option" where
  "parse_dashed s =
     (if s ! 8 \<noteq> CHR ''-'' \<or> s ! 13 \<noteq> CHR ''-'' \<or> s ! 18 \<noteq> CHR ''-'' \<or> s ! 23 \<noteq> CHR ''-''
      then (replicate 16 0, Some InvalidUUIDFormat)
      else case parse_loop s (enumerate 0 uuid_positions) (replicate 16 0) of
             (uuid, ok) \<Rightarrow> if ok then (uuid, None) else (uuid, Some InvalidUUIDFormat))"

definition parse_bytes :: "string \<Rightarrow> 8 word list \<times> uuid_error option" where
  "parse_bytes s =
     (if length s = 36 then parse_dashed s
      else if length s = 36 + 9 then
        (if \<not> EqualFold (take 9 s) ''urn:uuid:''
         then (replicate 16 0, Some (InvalidUrnPrefix (take 9 s)))
         else parse_dashed (drop 9 s))
      else if length s = 36 + 2 then parse_dashed (drop 1 s)
      else if length s = 32 then
        (case parse_raw_loop s [0..<16] (replicate 16 0) of
           (uuid, ok) \<Rightarrow> if ok then (uuid, None) else (uuid, Some InvalidUUIDFormat))
      else (replicate 16 0, Some (InvalidLengthError (length s))))"

definition Parse :: "string \<Rightarrow> UUID \<times> uuid_error option" where
  "Parse s = (case parse_bytes s of (bs, err) \<Rightarrow> (make_UUID bs, err))"

text \<open>
  \<open>uuid.New\<close> reads 16 bytes from the random source and stamps version 4 and the RFC 4122
  variant on them. The bytes read are a parameter.
\<close>

definition uuid_New :: "UUID \<Rightarrow> UUID" where
  "uuid_New random =
     (let b = uuid_bytes random;
          b6 = b[6 := (b ! 6 AND 0x0f) OR 0x40];
          b8 = b6[8 := (b6 ! 8 AND 0x3f) OR 0x80]
      in make_UUID b8)"

text \<open>The functions of \<open>task_id.go\<close> themselves.\<close>

definition String_TaskID :: "TaskID \<Rightarrow> string" where
  "String_TaskID t = String_UUID t"

definition NewTaskID :: "UUID \<Rightarrow> TaskID" where
  "NewTaskID random = uuid_New random"

definition ParseTaskID :: "string \<Rightarrow> TaskID \<times> uuid_error option" where
  "ParseTaskID ident =
     (case Parse ident of
        (uid, Some err) \<Rightarrow> (Nil_UUID, Some err)
      | (uid, None) \<Rightarrow> (uid, None))"

definition IsEmpty :: "TaskID \<Rightarrow> bool" where
  "IsEmpty t = (uuid_bytes t = uuid_bytes Nil_UUID)"

definition Equals :: "TaskID \<Rightarrow> TaskID \<Rightarrow> bool" where
  "Equals t other = (uuid_bytes t = uuid_bytes other)"

definition NotEquals :: "TaskID \<Rightarrow> TaskID \<Rightarrow> bool" where
  "NotEquals t other = (uuid_bytes t \<noteq> uuid_bytes other)"

text \<open>The 128-bit number an identifier stands for, its bytes read in network order.\<close>

definition uuid_value :: "UUID \<Rightarrow> nat" where
  "uuid_value u = horner_sum unat 256 (rev (uuid_bytes u))"

subsection \<open>Time, pointers and slices\<close>

text \<open>
  A \<open>time.Time\<close> is an instant, here the number of nanoseconds since the epoch;
  \<open>Before\<close> and \<open>After\<close> compare instants.
\<close>

type_synonym Time = int

definition Before :: "Time \<Rightarrow> Time \<Rightarrow> bool" where
  "Before t u = (t < u)"

definition After :: "Time \<Rightarrow> Time \<Rightarrow> bool" where
  "After t u = (t > u)"

text \<open>A slice is nil (\<open>None\<close>) or a sequence; \<open>len\<close> of nil is 0 and ranging over nil does nothing.\<close>

type_synonym 'a slice = "'a list option"

fun len :: "'a slice \<Rightarrow> nat" where
  "len None = 0"
| "len (Some xs) = length xs"

fun elems :: "'a slice \<Rightarrow> 'a list" where
  "elems None = []"
| "elems (Some xs) = xs"

subsection \<open>The filter and the task (\<open>task_filter.go\<close>, \<open>task.go\<close>)\<close>

record TaskFilter =
  Status :: "TaskStatus option"
  Tags :: "string slice"
  DueAfter :: "Time option"
  DueBefore :: "Time option"
  Limit :: int

record Task =
  ID :: TaskID
  CreatedAt :: Time
  Title :: string
  Notes :: string
  Status :: TaskStatus
  Tags :: "string slice"
  DueDate :: "Time option"
  CompletedAt :: "Time option"
  DeferredCount :: int

text \<open>
  \<open>containsAllTags\<close>: the first loop enters every tag of the task into the map
  \<open>tagSet\<close>; the second loop reads the map at every required tag and returns false at the
  first one that is missing. Reading a Go map at an absent key gives the zero value, false.
\<close>

fun fill_tagSet :: "string list \<Rightarrow> (string \<rightharpoonup> bool) \<Rightarrow> (string \<rightharpoonup> bool)" where
  "fill_tagSet [] tagSet = tagSet"
| "fill_tagSet (tag # rest) tagSet = fill_tagSet rest (tagSet(tag \<mapsto> True))"

definition map_index :: "(string \<rightharpoonup> bool) \<Rightarrow> string \<Rightarrow> bool" where
  "map_index m k = (case m k of None \<Rightarrow> False | Some v \<Rightarrow> v)"

fun check_required :: "(string \<rightharpoonup> bool) \<Rightarrow> string list \<Rightarrow> bool" where
  "check_required tagSet [] = True"
| "check_required tagSet (requiredTag # rest) =
     (if \<not> map_index tagSet requiredTag then False else check_required tagSet rest)"

definition containsAllTags :: "string slice \<Rightarrow> string slice \<Rightarrow> bool" where
  "containsAllTags taskTags filterTags =
     (if len filterTags = 0 then True
      else check_required (fill_tagSet (elems taskTags) Map.empty) (elems filterTags))"

text \<open>
  \<open>Matches\<close> on a filter value and a task (the pointer \<open>t\<close> refers to a task). Each
  guard of the source is one branch, in the source's order; \<open>Limit\<close> is never read.
\<close>

definition Matches :: "TaskFilter \<Rightarrow> Task \<Rightarrow> bool" where
  "Matches f t =
     (if (case TaskFilter.Status f of None \<Rightarrow> False | Some st \<Rightarrow> Task.Status t \<noteq> st) then False
      else if len (TaskFilter.Tags f) > 0 \<and> \<not> containsAllTags (Task.Tags t) (TaskFilter.Tags f)
        then False
      else if (case DueAfter f of None \<Rightarrow> False
               | Some after \<Rightarrow> (case DueDate t of None \<Rightarrow> True | Some due \<Rightarrow> Before due after))
        then False
      else if (case DueBefore f of None \<Rightarrow> False
               | Some before \<Rightarrow> (case DueDate t of None \<Rightarrow> True | Some due \<Rightarrow> After due before))
        then False
      else True)"

subsection \<open>Trimming white space (\<open>strings.TrimSpace\<close>)\<close>

text \<open>
  \<open>strings.TrimSpace\<close> removes leading and trailing white space as defined by Unicode
  (\<open>unicode.IsSpace\<close>), decoding the UTF-8 text one code point at a time from each end. A
  code point decoded at the start (or at the end) of a byte string is a white-space
  character exactly when the string starts (or ends) with the UTF-8 encoding of that
  character, since any ill-formed sequence decodes to U+FFFD. The list gives these
  encodings: U+0009 to U+000D, U+0020, U+0085, U+00A0, U+1680, U+2000 to U+200A, U+2028,
  U+2029, U+202F, U+205F and U+3000. No encoding in the list is a prefix or a suffix of
  another one.
\<close>

definition white_space :: "string list" where
  "white_space =
     [[CHR 0x09], [CHR 0x0A], [CHR 0x0B], [CHR 0x0C], [CHR 0x0D], [CHR 0x20],
      [CHR 0xC2, CHR 0x85], [CHR 0xC2, CHR 0xA0],
      [CHR 0xE1, CHR 0x9A, CHR 0x80],
      [CHR 0xE2, CHR 0x80, CHR 0x80], [CHR 0xE2, CHR 0x80, CHR 0x81],
      [CHR 0xE2, CHR 0x80, CHR 0x82], [CHR 0xE2, CHR 0x80, CHR 0x83],
      [CHR 0xE2, CHR 0x80, CHR 0x84], [CHR 0xE2, CHR 0x80, CHR 0x85],
      [CHR 0xE2, CHR 0x80, CHR 0x86], [CHR 0xE2, CHR 0x80, CHR 0x87],
      [CHR 0xE2, CHR 0x80, CHR 0x88], [CHR 0xE2, CHR 0x80, CHR 0x89],
      [CHR 0xE2, CHR 0x80, CHR 0x8A],
      [CHR 0xE2, CHR 0x80, CHR 0xA8], [CHR 0xE2, CHR 0x80, CHR 0xA9],
      [CHR 0xE2, CHR 0x80, CHR 0xAF], [CHR 0xE2, CHR 0x81, CHR 0x9F],
      [CHR 0xE3, CHR 0x80, CHR 0x80]]"

text \<open>The width in bytes of the white-space character a string starts or ends with; 0 if none.\<close>

definition leading_space :: "string \<Rightarrow> nat" where
  "leading_space s = (case find (\<lambda>w. prefix w s) white_space of None \<Rightarrow> 0 | Some w \<Rightarrow> length w)"

definition trailing_space :: "string \<Rightarrow> nat" where
  "trailing_space s = (case find (\<lambda>w. suffix w s) white_space of None \<Rightarrow> 0 | Some w \<Rightarrow> length w)"

function TrimLeft :: "string \<Rightarrow> string" where
  "TrimLeft s = (if leading_space s = 0 then s else TrimLeft (drop (leading_space s) s))"
  by pat_completeness auto
termination
proof (relation "measure length")
  show "wf (measure length)" by simp
next
  fix s :: string
  assume "leading_space s \<noteq> 0"
  moreover have "leading_space s \<le> length s"
    by (auto simp add: leading_space_def find_Some_iff prefix_length_le split: option.splits)
  ultimately show "(drop (leading_space s) s, s) \<in> measure length" by simp
qed

function TrimRight :: "string \<Rightarrow> string" where
  "TrimRight s =
     (if trailing_space s = 0 then s else TrimRight (take (length s - trailing_space s) s))"
  by pat_completeness auto
termination
proof (relation "measure length")
  show "wf (measure length)" by simp
next
  fix s :: string
  assume "trailing_space s \<noteq> 0"
  moreover have "trailing_space s \<le> length s"
    by (auto simp add: trailing_space_def find_Some_iff suffix_length_le split: option.splits)
  ultimately show "(take (length s - trailing_space s) s, s) \<in> measure length" by simp
qed

declare TrimLeft.simps [simp del] TrimRight.simps [simp del]

definition TrimSpace :: "string \<Rightarrow> string" where
  "TrimSpace s = TrimRight (TrimLeft s)"

subsection \<open>The task factory (\<open>task.go\<close>)\<close>

text \<open>
  \<open>NewTask\<close> calls \<open>NewTaskID()\<close>, which draws random bytes, and \<open>time.Now()\<close>. The
  environment holds what these two calls deliver: the 16 bytes read from the random source
  and the current instant. The result is the pair the Go function returns: the task pointer
  (nil on failure) and the error (nil on success).
\<close>

record env =
  rand_Read :: UUID
  time_Now :: Time

definition NewTask :: "env \<Rightarrow> string \<Rightarrow> string slice \<Rightarrow> Task option \<times> error option" where
  "NewTask e title tags =
     (let trimmedTitle = TrimSpace title in
      if trimmedTitle = [] then (None, Some ErrEmptyTitle)
      else
        let ident = NewTaskID (rand_Read e);
            taskTags = (if len tags > 0 then Some (elems tags) else None);
            task = \<lparr>ID = ident, CreatedAt = time_Now e, Title = trimmedTitle, Notes = [],
                    Status = StatusPool, Tags = taskTags, DueDate = None,
                    CompletedAt = None, DeferredCount = 0\<rparr>
        in (Some task, None))"

subsection \<open>Lifecycle transitions\<close>

text \<open>
  Modelled from the spec: the transition methods \<open>Pick\<close>, \<open>Defer\<close> and \<open>Complete\<close> of
  \<open>Task\<close> are missing from \<open>task.go\<close>, which ends with \<open>NewTask\<close>. Section 4.1 of the
  specification gives them: \<open>pick()\<close>: pool to today; today to today (idempotent, no-op);
  done to today is rejected, signaling an invalid-transition failure. \<open>defer()\<close>: today to
  pool and increments \<open>deferredCount\<close> by exactly 1; pool to pool is idempotent (no
  increment); done to pool is rejected. \<open>complete()\<close>: any non-done status to done, setting
  \<open>completedAt\<close> to the current time; done to done is idempotent (does not overwrite
  \<open>completedAt\<close>). Section 8 adds that \<open>pick()\<close> on a done task fails and leaves the task
  unchanged, and the tie-break policy of section 4.1 never permits a transition out of
  done; a rejected \<open>defer()\<close> is read the same way. Each method returns the task after the
  call and the error; for \<open>pick\<close> and \<open>defer\<close> on a status that is none of the three,
  the specification says nothing and the model gives no result.
\<close>

definition Pick :: "Task \<Rightarrow> (Task \<times> error option) option" where
  "Pick t =
     (if Task.Status t = StatusPool then Some (t\<lparr>Task.Status := StatusToday\<rparr>, None)
      else if Task.Status t = StatusToday then Some (t, None)
      else if Task.Status t = StatusDone then Some (t, Some ErrInvalidStateTransition)
      else None)"

definition Defer :: "Task \<Rightarrow> (Task \<times> error option) option" where
  "Defer t =
     (if Task.Status t = StatusToday
        then Some (t\<lparr>Task.Status := StatusPool, DeferredCount := DeferredCount t + 1\<rparr>, None)
      else if Task.Status t = StatusPool then Some (t, None)
      else if Task.Status t = StatusDone then Some (t, Some ErrInvalidStateTransition)
      else None)"

definition Complete :: "Time \<Rightarrow> Task \<Rightarrow> Task \<times> error option" where
  "Complete now t =
     (if Task.Status t \<noteq> StatusDone
        then (t\<lparr>Task.Status := StatusDone, CompletedAt := Some now\<rparr>, None)
      else (t, None))"

text \<open>
  The canonical text form: 36 bytes, lower-case hexadecimal digits in groups of 8, 4, 4, 4
  and 12, separated by hyphens.
\<close>

definition lower_hex :: "string \<Rightarrow> bool" where
  "lower_hex s = list_all (\<lambda>c. c \<in> set hextable) s"

definition canonical_form :: "string \<Rightarrow> bool" where
  "canonical_form s =
     (length s = 36 \<and>
      lower_hex (take 8 s) \<and> s ! 8 = CHR ''-'' \<and>
      lower_hex (take 4 (drop 9 s)) \<and> s ! 13 = CHR ''-'' \<and>
      lower_hex (take 4 (drop 14 s)) \<and> s ! 18 = CHR ''-'' \<and>
      lower_hex (take 4 (drop 19 s)) \<and> s ! 23 = CHR ''-'' \<and>
      lower_hex (drop 24 s))"

text \<open>
  The canonical form of a string that \<open>Parse\<close> accepts: its 36 bytes of digits and hyphens
  (the whole string, the part after \<open>urn:uuid:\<close>, or the middle of the braced form) with
  the digits in lower case; for the 32-digit form the hyphens are inserted.
\<close>

definition insert_hyphens :: "string \<Rightarrow> string" where
  "insert_hyphens t =
     take 8 t @ ''-'' @ take 4 (drop 8 t) @ ''-'' @ take 4 (drop 12 t) @ ''-'' @
     take 4 (drop 16 t) @ ''-'' @ drop 20 t"

definition canonical_of :: "string \<Rightarrow> string" where
  "canonical_of s =
     (if length s = 36 then map ascii_lower s
      else if length s = 45 then map ascii_lower (drop 9 s)
      else if length s = 38 then map ascii_lower (take 36 (drop 1 s))
      else insert_hyphens (map ascii_lower s))"

section \<open>Theorems\<close>

subsection \<open>Status validity\<close>

text \<open>
  Claim C4. For every status value \<open>s\<close>, \<open>Valid\<close> returns true if and only if \<open>s\<close> is
  exactly one of the three strings "pool", "today", "done"; the empty string, an
  uppercase variant and whitespace-padded variants are invalid.
\<close>

theorem Valid_iff_three_values:
  "Valid s = (s = ''pool'' \<or> s = ''today'' \<or> s = ''done'')
   \<and> \<not> Valid ''''
   \<and> \<not> Valid ''POOL'' \<and> \<not> Valid ''Today'' \<and> \<not> Valid ''DONE''
   \<and> \<not> Valid '' pool'' \<and> \<not> Valid ''today '' \<and> \<not> Valid '' done ''"
  by (simp add: Valid_def StatusPool_def StatusToday_def StatusDone_def)

subsection \<open>Sentinel errors\<close>

lemma sentinel_addresses:
  "ErrTaskNotFound = ErrorString 0"
  "ErrInvalidStatus = ErrorString 1"
  "ErrInvalidStateTransition = ErrorString 2"
  "ErrEmptyTitle = ErrorString 3"
  "ErrDuplicateTaskID = ErrorString 4"
  by (simp_all add: ErrTaskNotFound_def ErrInvalidStatus_def ErrInvalidStateTransition_def
      ErrEmptyTitle_def ErrDuplicateTaskID_def heap0_def heap1_def heap2_def heap3_def
      heap4_def errors_New_def)

text \<open>
  Claim C7. The five domain error values (task not found, invalid status, invalid state
  transition, empty title, duplicate task ID) are pairwise distinct values, so comparing an
  error against the sentinels tells which kind occurred; no message is read.
\<close>

theorem sentinel_errors_pairwise_distinct:
  "distinct [ErrTaskNotFound, ErrInvalidStatus, ErrInvalidStateTransition,
             ErrEmptyTitle, ErrDuplicateTaskID]"
  by (simp add: ErrTaskNotFound_def ErrInvalidStatus_def ErrInvalidStateTransition_def
      ErrEmptyTitle_def ErrDuplicateTaskID_def heap0_def heap1_def heap2_def heap3_def
      heap4_def errors_New_def)

subsection \<open>Identifiers\<close>

lemma sixteen_elements:
  assumes "length (bs :: 'a list) = 16"
  obtains b0 b1 b2 b3 b4 b5 b6 b7 b8 b9 b10 b11 b12 b13 b14 b15
  where "bs = [b0, b1, b2, b3, b4, b5, b6, b7, b8, b9, b10, b11, b12, b13, b14, b15]"
proof -
  from assms have "\<exists>b0 b1 b2 b3 b4 b5 b6 b7 b8 b9 b10 b11 b12 b13 b14 b15.
     bs = [b0, b1, b2, b3, b4, b5, b6, b7, b8, b9, b10, b11, b12, b13, b14, b15]"
    by (simp add: length_Suc_conv eval_nat_numeral) blast
  then show thesis using that by blast
qed

lemma replicate_16: "replicate 16 x = [x, x, x, x, x, x, x, x, x, x, x, x, x, x, x, x]"
  by (simp add: eval_nat_numeral)

lemma length_uuid_bytes: "length (uuid_bytes u) = 16"
  using uuid_bytes [of u] by simp

lemma horner_bytes_inject:
  "length xs = length ys \<Longrightarrow>
   horner_sum unat 256 xs = horner_sum unat 256 (ys :: 8 word list) \<Longrightarrow> xs = ys"
proof (induction xs ys rule: list_induct2)
  case Nil
  then show ?case by simp
next
  case (Cons x xs y ys)
  have bx: "unat x < 256" using unsigned_less [of x, where 'a = nat] by simp
  have by': "unat y < 256" using unsigned_less [of y, where 'a = nat] by simp
  from Cons.prems have eq:
    "unat x + 256 * horner_sum unat 256 xs = unat y + 256 * horner_sum unat 256 ys"
    by simp
  from eq bx by' have "unat x = unat y"
    by (metis mod_less mod_mult_self2)
  moreover from eq bx by' have "horner_sum unat 256 xs = horner_sum unat 256 ys"
    using calculation by simp
  ultimately show ?case using Cons.IH by (simp add: word_unat_eq_iff)
qed

lemma horner_bytes_less: "horner_sum unat 256 (xs :: 8 word list) < 256 ^ length xs"
proof (induction xs)
  case Nil
  then show ?case by simp
next
  case (Cons x xs)
  have "unat x < 256" using unsigned_less [of x, where 'a = nat] by simp
  with Cons show ?case by simp
qed

lemma uuid_value_inject: "uuid_value a = uuid_value b \<longleftrightarrow> a = b"
  unfolding uuid_value_def
  using horner_bytes_inject [of "rev (uuid_bytes a)" "rev (uuid_bytes b)"]
  by (auto simp add: length_uuid_bytes uuid_bytes_inject)

lemma uuid_value_less: "uuid_value a < 2 ^ 128"
  using horner_bytes_less [of "rev (uuid_bytes a)"]
  by (simp add: uuid_value_def length_uuid_bytes)

lemma uuid_value_Nil: "uuid_value Nil_UUID = 0"
  by (simp add: uuid_value_def Nil_UUID_def make_UUID_inverse replicate_16)

lemma IsEmpty_iff_Nil: "IsEmpty a = (a = Nil_UUID)"
  by (simp add: IsEmpty_def uuid_bytes_inject)

text \<open>
  Claim C8. Identifier equality is value equality: \<open>Equals a b\<close> holds exactly when \<open>a\<close>
  and \<open>b\<close> are the same 128-bit value, \<open>NotEquals\<close> is its exact negation, and
  \<open>IsEmpty a\<close> holds exactly when \<open>a\<close> is the all-zero sentinel.
\<close>

theorem TaskID_equality_is_value_equality:
  "Equals a b = (a = b)
   \<and> Equals a b = (uuid_value a = uuid_value b)
   \<and> NotEquals a b = (\<not> Equals a b)
   \<and> IsEmpty a = (a = Nil_UUID)
   \<and> IsEmpty a = (uuid_value a = 0)
   \<and> uuid_bytes Nil_UUID = replicate 16 0
   \<and> uuid_value a < 2 ^ 128"
proof -
  have e: "Equals a b = (a = b)"
    by (simp add: Equals_def uuid_bytes_inject)
  have n: "NotEquals a b = (\<not> Equals a b)"
    by (simp add: Equals_def NotEquals_def)
  have z: "IsEmpty a = (uuid_value a = 0)"
    using uuid_value_inject [of a Nil_UUID] by (simp add: IsEmpty_iff_Nil uuid_value_Nil)
  have b: "uuid_bytes Nil_UUID = replicate 16 0"
    by (simp add: Nil_UUID_def make_UUID_inverse)
  show ?thesis
    using e n z b IsEmpty_iff_Nil [of a] uuid_value_inject [of a b] uuid_value_less [of a]
    by blast
qed

subsection \<open>Rendering and parsing identifiers\<close>

lemma xvalues_hextable_table:
  "list_all (\<lambda>k. xvalues (hextable ! k) = of_nat k \<and> xvalues (hextable ! k) \<noteq> 255) [0..<16]"
  by code_simp

lemma xvalues_hextable:
  assumes "k < 16"
  shows "xvalues (hextable ! k) = of_nat k \<and> xvalues (hextable ! k) \<noteq> 255"
proof -
  from assms have "k \<in> set [0..<16]" by simp
  with xvalues_hextable_table show ?thesis
    unfolding list_all_iff by blast
qed

lemma fifteen_mask: "(15 :: 8 word) = mask 4"
  by (simp add: mask_eq_exp_minus_1)

lemma byte_nibbles: "push_bit 4 (drop_bit 4 v) OR (v AND 15) = (v :: 8 word)"
  unfolding fifteen_mask
  by (rule bit_eqI) (auto simp add: bit_simps)

lemma high_nibble_less: "unat (drop_bit 4 (v :: 8 word)) < 16"
proof -
  have "unat v < 256" using unsigned_less [of v, where 'a = nat] by simp
  then show ?thesis by (simp add: drop_bit_eq_div unat_div)
qed

lemma low_nibble_less: "unat ((v :: 8 word) AND 15) < 16"
proof -
  have "take_bit 4 (unat v) < 2 ^ 4" by (rule take_bit_nat_less_exp)
  then show ?thesis
    unfolding fifteen_mask by (simp flip: take_bit_eq_mask add: unsigned_take_bit_eq)
qed

lemma xtob_hex_digits:
  "xtob (hextable ! unat (drop_bit 4 v)) (hextable ! unat (v AND 15)) = (v, True)"
proof -
  note hi = xvalues_hextable [OF high_nibble_less [of v], simplified]
  note lo = xvalues_hextable [OF low_nibble_less [of v], simplified]
  have h1: "xvalues (hextable ! unat (drop_bit 4 v)) = drop_bit 4 v"
    by (rule hi [THEN conjunct1])
  have h2: "xvalues (hextable ! unat (drop_bit 4 v)) \<noteq> 255"
    by (rule hi [THEN conjunct2])
  have l1: "xvalues (hextable ! unat (v AND 15)) = v AND 15"
    by (rule lo [THEN conjunct1])
  have l2: "xvalues (hextable ! unat (v AND 15)) \<noteq> 255"
    by (rule lo [THEN conjunct2])
  have "xtob (hextable ! unat (drop_bit 4 v)) (hextable ! unat (v AND 15))
      = (push_bit 4 (drop_bit 4 v) OR (v AND 15), True)"
    unfolding xtob_def Let_def using h2 l2 by (simp only: h1 l1) simp
  then show ?thesis by (simp only: byte_nibbles)
qed

lemma parse_bytes_encodeHex: "parse_bytes (encodeHex u) = (uuid_bytes u, None)"
proof -
  obtain b0 b1 b2 b3 b4 b5 b6 b7 b8 b9 b10 b11 b12 b13 b14 b15
    where bs: "uuid_bytes u = [b0, b1, b2, b3, b4, b5, b6, b7, b8, b9, b10, b11, b12, b13, b14, b15]"
    using length_uuid_bytes [of u] by (rule sixteen_elements)
  show ?thesis
    unfolding encodeHex_def Let_def bs
    by (simp add: parse_bytes_def parse_dashed_def uuid_positions_def xtob_hex_digits
        replicate_16)
qed

lemma Parse_String: "Parse (String_UUID u) = (u, None)"
  by (simp add: Parse_def String_UUID_def parse_bytes_encodeHex uuid_bytes_inverse)

lemma ParseTaskID_String: "ParseTaskID (String_TaskID t) = (t, None)"
  by (simp add: ParseTaskID_def String_TaskID_def Parse_String)

lemma hextable_nth: "n < 16 \<Longrightarrow> hextable ! n \<in> set hextable"
proof -
  have "length hextable = 16" by (simp add: hextable_def)
  then show "n < 16 \<Longrightarrow> hextable ! n \<in> set hextable" by (metis nth_mem)
qed

lemma canonical_String: "canonical_form (String_TaskID t)"
proof -
  obtain b0 b1 b2 b3 b4 b5 b6 b7 b8 b9 b10 b11 b12 b13 b14 b15
    where bs: "uuid_bytes t = [b0, b1, b2, b3, b4, b5, b6, b7, b8, b9, b10, b11, b12, b13, b14, b15]"
    using length_uuid_bytes [of t] by (rule sixteen_elements)
  show ?thesis
    unfolding String_TaskID_def String_UUID_def encodeHex_def Let_def bs canonical_form_def
      lower_hex_def
    by (simp add: hextable_nth high_nibble_less low_nibble_less)
qed

lemma String_TaskID_inject: "String_TaskID a = String_TaskID b \<Longrightarrow> a = b"
proof -
  assume "String_TaskID a = String_TaskID b"
  then have "ParseTaskID (String_TaskID a) = ParseTaskID (String_TaskID b)" by simp
  then show "a = b" by (simp add: ParseTaskID_String)
qed

lemma eq_char_of_iff: "(d = char_of n) = (take_bit 8 (n :: nat) = of_char d)"
  by (metis char_of_eq_iff)

lemma hex_digit:
  assumes "xvalues c \<noteq> 255"
  shows "unat (xvalues c) < 16 \<and> hextable ! unat (xvalues c) = ascii_lower c"
proof -
  define m :: nat where "m = of_char c"
  have c: "c = char_of m" by (simp add: m_def)
  from assms have "(48 \<le> m \<and> m \<le> 57) \<or> (65 \<le> m \<and> m \<le> 70) \<or> (97 \<le> m \<and> m \<le> 102)"
    unfolding xvalues_def Let_def m_def by (auto split: if_splits)
  then have "m = 48 \<or> m = 49 \<or> m = 50 \<or> m = 51 \<or> m = 52 \<or> m = 53 \<or> m = 54 \<or> m = 55
      \<or> m = 56 \<or> m = 57 \<or> m = 65 \<or> m = 66 \<or> m = 67 \<or> m = 68 \<or> m = 69 \<or> m = 70
      \<or> m = 97 \<or> m = 98 \<or> m = 99 \<or> m = 100 \<or> m = 101 \<or> m = 102"
    by arith
  then show ?thesis
    unfolding c
    by (elim disjE) (simp_all add: hextable_def xvalues_def ascii_lower_def eq_char_of_iff)
qed

lemma nibble_pair:
  assumes "unat (a :: 8 word) < 16" "unat (b :: 8 word) < 16"
  shows "drop_bit 4 (push_bit 4 a OR b) = a \<and> (push_bit 4 a OR b) AND 0x0f = b"
proof -
  from assms(1) have "a < 2 ^ 4" by (simp add: word_less_nat_alt)
  then have a: "take_bit 4 a = a" by (simp add: take_bit_eq_mask less_mask_eq)
  from assms(2) have "b < 2 ^ 4" by (simp add: word_less_nat_alt)
  then have b: "take_bit 4 b = b" by (simp add: take_bit_eq_mask less_mask_eq)
  have a': "n < 4" if "bit a n" for n
    using that a by (metis bit_take_bit_iff)
  have b': "n < 4" if "bit b n" for n
    using that b by (metis bit_take_bit_iff)
  have 1: "drop_bit 4 (push_bit 4 a OR b) = a"
    by (rule bit_eqI) (auto simp add: bit_simps dest: a' b')
  have 2: "(push_bit 4 a OR b) AND mask 4 = b"
    by (rule bit_eqI) (auto simp add: bit_simps dest: a' b')
  from 1 2 show ?thesis by (simp add: fifteen_mask)
qed

lemma hex_Encode_xtob:
  assumes "snd (xtob c1 c2)"
  shows "hex_Encode [fst (xtob c1 c2)] = [ascii_lower c1, ascii_lower c2]"
proof -
  from assms have ok: "xvalues c1 \<noteq> 255" "xvalues c2 \<noteq> 255"
    by (simp_all add: xtob_def Let_def)
  note d1 = hex_digit [OF ok(1)] and d2 = hex_digit [OF ok(2)]
  note np = nibble_pair [OF d1 [THEN conjunct1] d2 [THEN conjunct1]]
  show ?thesis
    using d1 d2 np by (simp add: xtob_def Let_def)
qed


lemma hextable_xtob:
  assumes "snd (xtob c1 c2)"
  shows "hextable ! unat (drop_bit 4 (fst (xtob c1 c2))) = ascii_lower c1"
    and "hextable ! unat (fst (xtob c1 c2) AND 15) = ascii_lower c2"
  using hex_Encode_xtob [OF assms] by simp_all

lemma parse_loop_True:
  "parse_loop s pairs uuid = (uuid', True) \<Longrightarrow>
     list_all (\<lambda>(i, x). snd (xtob (s ! x) (s ! (x + 1)))) pairs
     \<and> uuid' = fold (\<lambda>(i, x) u. u[i := fst (xtob (s ! x) (s ! (x + 1)))]) pairs uuid"
proof (induction pairs arbitrary: uuid)
  case Nil
  then show ?case by simp
next
  case (Cons p pairs)
  obtain i x where p: "p = (i, x)" by (cases p)
  from Cons.prems have ok: "snd (xtob (s ! x) (s ! (x + 1)))"
    unfolding p by (auto split: prod.splits if_splits)
  with Cons.prems have
    "parse_loop s pairs (uuid[i := fst (xtob (s ! x) (s ! (x + 1)))]) = (uuid', True)"
    unfolding p by (auto split: prod.splits if_splits)
  from Cons.IH [OF this] ok show ?case unfolding p by simp
qed

lemma list_36:
  assumes "length s = 36"
  shows "s = map ((!) s) [0..<36]"
  using assms map_nth [of s] by simp

lemma ascii_lower_dash: "ascii_lower (CHR ''-'') = CHR ''-''"
  by (simp add: ascii_lower_def)

lemma parse_dashed_canonical:
  assumes "length s = 36" and "parse_dashed s = (bs, None)"
  shows "length bs = 16 \<and>
     hex_Encode (take 4 bs) @ ''-'' @ hex_Encode (take 2 (drop 4 bs)) @ ''-'' @
     hex_Encode (take 2 (drop 6 bs)) @ ''-'' @ hex_Encode (take 2 (drop 8 bs)) @ ''-'' @
     hex_Encode (drop 10 bs) = map ascii_lower s"
proof -
  from assms(2) have dashes:
    "s ! 8 = CHR ''-''" "s ! 13 = CHR ''-''" "s ! 18 = CHR ''-''" "s ! 23 = CHR ''-''"
    by (auto simp add: parse_dashed_def split: if_splits)
  with assms(2) have "parse_loop s (enumerate 0 uuid_positions) (replicate 16 0) = (bs, True)"
    by (auto simp add: parse_dashed_def split: if_splits prod.splits)
  note lp = parse_loop_True [OF this]
  from lp have ok: "list_all (\<lambda>(i, x). snd (xtob (s ! x) (s ! (x + 1))))
      (enumerate 0 uuid_positions)" by simp
  from lp have bs: "bs = fold (\<lambda>(i, x) u. u[i := fst (xtob (s ! x) (s ! (x + 1)))])
      (enumerate 0 uuid_positions) (replicate 16 0)" by simp
  have e: "[0..<36] = [0, 1, 2, 3, 4, 5, 6, 7, 8, 9, 10, 11, 12, 13, 14, 15, 16, 17, 18, 19, 20,
      21, 22, 23, 24, 25, 26, 27, 28, 29, 30, 31, 32, 33, 34, 35 :: nat]"
    by (simp add: upt_rec)
  have "map ascii_lower s = map (\<lambda>i. ascii_lower (s ! i)) [0..<36]"
    by (subst list_36 [OF assms(1)]) (simp only: map_map comp_def)
  note m = this [unfolded e]
  show ?thesis
    unfolding m bs using ok dashes
    by (simp add: uuid_positions_def replicate_16 hextable_xtob ascii_lower_dash)
qed

lemma ParseTaskID_canonical_36:
  assumes "length s = 36" and "ParseTaskID s = (u, None)"
  shows "String_TaskID u = map ascii_lower s"
proof -
  obtain bs err where p: "parse_bytes s = (bs, err)" by (cases "parse_bytes s")
  with assms(2) have err: "err = None" and u: "u = make_UUID bs"
    by (auto simp add: ParseTaskID_def Parse_def split: option.splits)
  from p err assms(1) have "parse_dashed s = (bs, None)" by (simp add: parse_bytes_def)
  note c = parse_dashed_canonical [OF assms(1) this]
  from c have "uuid_bytes u = bs" by (simp add: u make_UUID_inverse)
  with c show ?thesis
    by (simp add: String_TaskID_def String_UUID_def encodeHex_def)
qed

lemma parse_loop_take:
  "list_all (\<lambda>(i, x). x + 1 < n) pairs \<Longrightarrow>
     parse_loop (take n s) pairs uuid = parse_loop s pairs uuid"
proof (induction pairs arbitrary: uuid)
  case Nil
  then show ?case by simp
next
  case (Cons p pairs)
  obtain i x where p: "p = (i, x)" by (cases p)
  from Cons.prems have x: "x + 1 < n" and rest: "list_all (\<lambda>(i, x). x + 1 < n) pairs"
    unfolding p by simp_all
  from x have "take n s ! x = s ! x" "take n s ! (x + 1) = s ! (x + 1)" by simp_all
  with Cons.IH [OF rest] show ?case unfolding p by (simp split: prod.splits)
qed

lemma parse_dashed_take: "parse_dashed (take 36 s) = parse_dashed s"
proof -
  have "list_all (\<lambda>(i, x). x + 1 < 36) (enumerate 0 uuid_positions)"
    by (simp add: uuid_positions_def)
  from parse_loop_take [OF this] show ?thesis
    by (simp add: parse_dashed_def)
qed

lemma parse_raw_loop_True:
  "parse_raw_loop s is uuid = (uuid', True) \<Longrightarrow>
     list_all (\<lambda>i. snd (xtob (s ! (i * 2)) (s ! (i * 2 + 1)))) is
     \<and> uuid' = fold (\<lambda>i u. u[i := fst (xtob (s ! (i * 2)) (s ! (i * 2 + 1)))]) is uuid"
proof (induction "is" arbitrary: uuid)
  case Nil
  then show ?case by simp
next
  case (Cons i "is")
  from Cons.prems have ok: "snd (xtob (s ! (i * 2)) (s ! (i * 2 + 1)))"
    by (auto split: prod.splits if_splits)
  with Cons.prems have
    "parse_raw_loop s is (uuid[i := fst (xtob (s ! (i * 2)) (s ! (i * 2 + 1)))]) = (uuid', True)"
    by (auto split: prod.splits if_splits)
  from Cons.IH [OF this] ok show ?case by simp
qed

lemma parse_raw_canonical:
  assumes "length s = 32" and "parse_raw_loop s [0..<16] (replicate 16 0) = (bs, True)"
  shows "length bs = 16 \<and>
     hex_Encode (take 4 bs) @ ''-'' @ hex_Encode (take 2 (drop 4 bs)) @ ''-'' @
     hex_Encode (take 2 (drop 6 bs)) @ ''-'' @ hex_Encode (take 2 (drop 8 bs)) @ ''-'' @
     hex_Encode (drop 10 bs) = insert_hyphens (map ascii_lower s)"
proof -
  have h: "[0..<16] = [0, 1, 2, 3, 4, 5, 6, 7, 8, 9, 10, 11, 12, 13, 14, 15 :: nat]"
    by (simp add: upt_rec)
  note lp = parse_raw_loop_True [OF assms(2), unfolded h]
  from lp have ok: "list_all (\<lambda>i. snd (xtob (s ! (i * 2)) (s ! (i * 2 + 1))))
      [0, 1, 2, 3, 4, 5, 6, 7, 8, 9, 10, 11, 12, 13, 14, 15]" by simp
  from lp have bs: "bs = fold (\<lambda>i u. u[i := fst (xtob (s ! (i * 2)) (s ! (i * 2 + 1)))])
      [0, 1, 2, 3, 4, 5, 6, 7, 8, 9, 10, 11, 12, 13, 14, 15] (replicate 16 0)" by simp
  have e: "[0..<32] = [0, 1, 2, 3, 4, 5, 6, 7, 8, 9, 10, 11, 12, 13, 14, 15, 16, 17, 18, 19, 20,
      21, 22, 23, 24, 25, 26, 27, 28, 29, 30, 31 :: nat]"
    by (simp add: upt_rec)
  have l: "s = map ((!) s) [0..<32]" using assms(1) map_nth [of s] by simp
  have "map ascii_lower s = map (\<lambda>i. ascii_lower (s ! i)) [0..<32]"
    by (subst l) (simp only: map_map comp_def)
  note m = this [unfolded e]
  show ?thesis
    unfolding m bs using ok
    by (simp add: replicate_16 hextable_xtob insert_hyphens_def)
qed


lemma encode_canonical:
  assumes "u = make_UUID bs" and "length bs = 16 \<and>
     hex_Encode (take 4 bs) @ ''-'' @ hex_Encode (take 2 (drop 4 bs)) @ ''-'' @
     hex_Encode (take 2 (drop 6 bs)) @ ''-'' @ hex_Encode (take 2 (drop 8 bs)) @ ''-'' @
     hex_Encode (drop 10 bs) = c"
  shows "String_TaskID u = c"
proof -
  from assms have "uuid_bytes u = bs" by (simp add: make_UUID_inverse)
  with assms(2) show ?thesis
    by (simp add: String_TaskID_def String_UUID_def encodeHex_def)
qed

lemma ParseTaskID_accepted_length:
  assumes "ParseTaskID s = (u, None)"
  shows "length s = 36 \<or> length s = 45 \<or> length s = 38 \<or> length s = 32"
proof (rule ccontr)
  assume "\<not> ?thesis"
  then have "parse_bytes s = (replicate 16 0, Some (InvalidLengthError (length s)))"
    by (simp add: parse_bytes_def)
  with assms show False by (simp add: ParseTaskID_def Parse_def)
qed

lemma ParseTaskID_canonical:
  assumes "ParseTaskID s = (u, None)"
  shows "String_TaskID u = canonical_of s"
proof -
  obtain bs err where p: "parse_bytes s = (bs, err)" by (cases "parse_bytes s")
  with assms have err: "err = None" and u: "u = make_UUID bs"
    by (auto simp add: ParseTaskID_def Parse_def split: option.splits)
  consider (a) "length s = 36" | (b) "length s = 45" | (c) "length s = 38" | (d) "length s = 32"
    using ParseTaskID_accepted_length [OF assms] by blast
  then show ?thesis
  proof cases
    case a
    with p err have "parse_dashed s = (bs, None)" by (simp add: parse_bytes_def)
    from encode_canonical [OF u parse_dashed_canonical [OF a this]] a
    show ?thesis by (simp add: canonical_of_def)
  next
    case b
    with p err have d: "parse_dashed (drop 9 s) = (bs, None)"
      by (simp add: parse_bytes_def split: if_splits)
    from b have "length (drop 9 s) = 36" by simp
    from encode_canonical [OF u parse_dashed_canonical [OF this d]] b
    show ?thesis by (simp add: canonical_of_def)
  next
    case c
    with p err have "parse_dashed (drop 1 s) = (bs, None)" by (simp add: parse_bytes_def)
    then have d: "parse_dashed (take 36 (drop 1 s)) = (bs, None)"
      by (simp only: parse_dashed_take)
    from c have "length (take 36 (drop 1 s)) = 36" by simp
    from encode_canonical [OF u parse_dashed_canonical [OF this d]] c
    show ?thesis by (simp add: canonical_of_def)
  next
    case d
    with p err have "parse_raw_loop s [0..<16] (replicate 16 0) = (bs, True)"
      by (auto simp add: parse_bytes_def split: prod.splits if_splits)
    from encode_canonical [OF u parse_raw_canonical [OF d this]] d
    show ?thesis by (simp add: canonical_of_def)
  qed
qed

text \<open>
  Claim C9. Rendering and parsing round-trip: for every identifier \<open>t\<close>, parsing
  \<open>String t\<close> succeeds and returns \<open>t\<close>; and for every string that \<open>ParseTaskID\<close>
  accepts, rendering the parsed identifier gives its canonical form, which parses back to
  the same identifier (for an accepted string of 36 bytes the canonical form is the string
  itself with its digits in lower case; for the \<open>urn:uuid:\<close>, braced and 32-digit strings
  it is \<open>canonical_of\<close> of the string). Rendering is injective, so no identifier is lost
  or altered by a render/parse cycle.
\<close>

theorem ParseTaskID_String_roundtrip:
  "ParseTaskID (String_TaskID t) = (t, None)
   \<and> canonical_form (String_TaskID t)
   \<and> (String_TaskID a = String_TaskID b \<longrightarrow> a = b)
   \<and> (ParseTaskID s = (u, None) \<longrightarrow>
        canonical_form (String_TaskID u) \<and> ParseTaskID (String_TaskID u) = (u, None)
        \<and> (length s = 36 \<longrightarrow> String_TaskID u = map ascii_lower s)
        \<and> String_TaskID u = canonical_of s
        \<and> (length s = 36 \<or> length s = 45 \<or> length s = 38 \<or> length s = 32))"
  using ParseTaskID_String canonical_String String_TaskID_inject ParseTaskID_canonical_36
    ParseTaskID_canonical ParseTaskID_accepted_length
  by blast

lemmas parse_unfold =
  ParseTaskID_def Parse_def parse_bytes_def parse_dashed_def uuid_positions_def
  xtob_def xvalues_def replicate_16

theorem ParseTaskID_String_roundtrip_witness:
  "ParseTaskID ''550E8400-E29B-41D4-A716-446655440000''
     = (make_UUID [85, 14, 132, 0, 226, 155, 65, 212, 167, 22, 68, 102, 85, 68, 0, 0], None)
   \<and> String_TaskID (make_UUID [85, 14, 132, 0, 226, 155, 65, 212, 167, 22, 68, 102, 85, 68, 0, 0])
     = ''550e8400-e29b-41d4-a716-446655440000''
   \<and> canonical_form ''550e8400-e29b-41d4-a716-446655440000''
   \<and> ParseTaskID ''550e8400-e29b-41d4-a716-446655440000''
     = (make_UUID [85, 14, 132, 0, 226, 155, 65, 212, 167, 22, 68, 102, 85, 68, 0, 0], None)
   \<and> length ''550E8400-E29B-41D4-A716-446655440000'' = 36
   \<and> map ascii_lower ''550E8400-E29B-41D4-A716-446655440000''
     = ''550e8400-e29b-41d4-a716-446655440000''
   \<and> ParseTaskID ''URN:uuid:550E8400-e29b-41d4-a716-446655440000''
     = (make_UUID [85, 14, 132, 0, 226, 155, 65, 212, 167, 22, 68, 102, 85, 68, 0, 0], None)
   \<and> canonical_of ''URN:uuid:550E8400-e29b-41d4-a716-446655440000''
     = ''550e8400-e29b-41d4-a716-446655440000''
   \<and> ParseTaskID ''{550E8400-e29b-41d4-a716-446655440000}''
     = (make_UUID [85, 14, 132, 0, 226, 155, 65, 212, 167, 22, 68, 102, 85, 68, 0, 0], None)
   \<and> canonical_of ''{550E8400-e29b-41d4-a716-446655440000}''
     = ''550e8400-e29b-41d4-a716-446655440000''
   \<and> ParseTaskID ''550E8400e29b41d4a716446655440000''
     = (make_UUID [85, 14, 132, 0, 226, 155, 65, 212, 167, 22, 68, 102, 85, 68, 0, 0], None)
   \<and> canonical_of ''550E8400e29b41d4a716446655440000''
     = ''550e8400-e29b-41d4-a716-446655440000''"
proof -
  let ?u = "make_UUID [85, 14, 132, 0, 226, 155, 65, 212, 167, 22, 68, 102, 85, 68, 0, 0]"
  let ?c = "''550e8400-e29b-41d4-a716-446655440000''"
  have p: "ParseTaskID ''550E8400-E29B-41D4-A716-446655440000'' = (?u, None)"
    by (simp add: parse_unfold)
  have p1: "ParseTaskID ''URN:uuid:550E8400-e29b-41d4-a716-446655440000'' = (?u, None)"
    by (simp add: parse_unfold EqualFold_def ascii_lower_def char_of_eq_iff)
  have p2: "ParseTaskID ''{550E8400-e29b-41d4-a716-446655440000}'' = (?u, None)"
    by (simp add: parse_unfold)
  have p3: "ParseTaskID ''550E8400e29b41d4a716446655440000'' = (?u, None)"
    by (simp add: parse_unfold upt_rec)
  have r: "String_TaskID ?u = ?c"
    by (simp add: String_TaskID_def String_UUID_def encodeHex_def make_UUID_inverse
        hextable_def)
  have l: "length ''550E8400-E29B-41D4-A716-446655440000'' = 36" by simp
  from ParseTaskID_String_roundtrip
    [of ?u ?u ?u "''550E8400-E29B-41D4-A716-446655440000''" ?u] p l
  have k: "canonical_form (String_TaskID ?u) \<and> ParseTaskID (String_TaskID ?u) = (?u, None)
      \<and> String_TaskID ?u = map ascii_lower ''550E8400-E29B-41D4-A716-446655440000''"
    by blast
  have k': "canonical_form ?c \<and> ParseTaskID ?c = (?u, None)
      \<and> ?c = map ascii_lower ''550E8400-E29B-41D4-A716-446655440000''"
    using k unfolding r .
  from ParseTaskID_String_roundtrip
    [of ?u ?u ?u "''URN:uuid:550E8400-e29b-41d4-a716-446655440000''" ?u] p1
  have "String_TaskID ?u = canonical_of ''URN:uuid:550E8400-e29b-41d4-a716-446655440000''"
    by blast
  then have c1: "?c = canonical_of ''URN:uuid:550E8400-e29b-41d4-a716-446655440000''"
    unfolding r .
  from ParseTaskID_String_roundtrip
    [of ?u ?u ?u "''{550E8400-e29b-41d4-a716-446655440000}''" ?u] p2
  have "String_TaskID ?u = canonical_of ''{550E8400-e29b-41d4-a716-446655440000}''"
    by blast
  then have c2: "?c = canonical_of ''{550E8400-e29b-41d4-a716-446655440000}''"
    unfolding r .
  from ParseTaskID_String_roundtrip
    [of ?u ?u ?u "''550E8400e29b41d4a716446655440000''" ?u] p3
  have "String_TaskID ?u = canonical_of ''550E8400e29b41d4a716446655440000''"
    by blast
  then have c3: "?c = canonical_of ''550E8400e29b41d4a716446655440000''"
    unfolding r .
  from p p1 p2 p3 r l k' c1 c2 c3 show ?thesis by metis
qed

text \<open>
  Claim C10. \<open>ParseTaskID\<close> accepts the all-zero text
  \<open>00000000-0000-0000-0000-000000000000\<close> without error and returns an identifier for
  which \<open>IsEmpty\<close> is true: the sentinel for ``no identifier'' is reachable from a string
  through the parsing interface.
\<close>

theorem ParseTaskID_accepts_zero_uuid:
  "ParseTaskID ''00000000-0000-0000-0000-000000000000'' = (Nil_UUID, None)
   \<and> IsEmpty (fst (ParseTaskID ''00000000-0000-0000-0000-000000000000''))"
proof -
  have "ParseTaskID ''00000000-0000-0000-0000-000000000000'' = (Nil_UUID, None)"
    by (simp add: parse_unfold Nil_UUID_def)
  then show ?thesis by (simp add: IsEmpty_def)
qed


subsection \<open>White space\<close>

lemma white_space_nonempty: "w \<in> set white_space \<Longrightarrow> w \<noteq> []"
  by (auto simp add: white_space_def)

lemma leading_space_0_iff: "leading_space s = 0 \<longleftrightarrow> (\<forall>w \<in> set white_space. \<not> prefix w s)"
  by (auto simp add: leading_space_def find_None_iff find_Some_iff white_space_nonempty
      split: option.splits)

lemma trailing_space_0_iff: "trailing_space s = 0 \<longleftrightarrow> (\<forall>w \<in> set white_space. \<not> suffix w s)"
  by (auto simp add: trailing_space_def find_None_iff find_Some_iff white_space_nonempty
      split: option.splits)

lemma leading_space_TrimLeft: "leading_space (TrimLeft s) = 0"
  by (induction s rule: TrimLeft.induct) (simp add: TrimLeft.simps)

lemma trailing_space_TrimRight: "trailing_space (TrimRight s) = 0"
  by (induction s rule: TrimRight.induct) (simp add: TrimRight.simps)

lemma prefix_TrimRight: "prefix (TrimRight s) s"
proof (induction s rule: TrimRight.induct)
  case (1 s)
  show ?case
  proof (cases "trailing_space s = 0")
    case True
    then show ?thesis by (simp add: TrimRight.simps)
  next
    case False
    with 1 have "prefix (TrimRight (take (length s - trailing_space s) s))
        (take (length s - trailing_space s) s)" by simp
    then have "prefix (TrimRight (take (length s - trailing_space s) s)) s"
      using take_is_prefix prefix_order.order_trans by blast
    with False show ?thesis by (subst TrimRight.simps) simp
  qed
qed

lemma leading_space_prefix:
  assumes "leading_space x = 0" and "prefix y x"
  shows "leading_space y = 0"
  using assms unfolding leading_space_0_iff
  using prefix_order.order_trans by blast

lemma leading_space_TrimSpace: "leading_space (TrimSpace s) = 0"
  unfolding TrimSpace_def
  by (rule leading_space_prefix [OF leading_space_TrimLeft prefix_TrimRight])

lemma trailing_space_TrimSpace: "trailing_space (TrimSpace s) = 0"
  unfolding TrimSpace_def by (rule trailing_space_TrimRight)

lemma TrimSpace_idem: "TrimSpace (TrimSpace s) = TrimSpace s"
proof -
  have "TrimLeft (TrimSpace s) = TrimSpace s"
    using leading_space_TrimSpace [of s] by (subst TrimLeft.simps) simp
  moreover have "TrimRight (TrimSpace s) = TrimSpace s"
    using trailing_space_TrimSpace [of s] by (subst TrimRight.simps) simp
  ultimately show ?thesis by (simp add: TrimSpace_def)
qed

lemma TrimLeft_decomp:
  "\<exists>ls. set ls \<subseteq> set white_space \<and> s = concat ls @ TrimLeft s"
proof (induction s rule: TrimLeft.induct)
  case (1 s)
  show ?case
  proof (cases "leading_space s = 0")
    case True
    then have "s = concat [] @ TrimLeft s" by (simp add: TrimLeft.simps)
    then show ?thesis by (metis empty_set empty_subsetI)
  next
    case False
    then obtain w where w: "find (\<lambda>w. prefix w s) white_space = Some w"
      by (auto simp add: leading_space_def split: option.splits)
    then have mem: "w \<in> set white_space" and pre: "prefix w s"
      by (auto simp add: find_Some_iff)
    from w have n: "leading_space s = length w" by (simp add: leading_space_def)
    from pre have s: "s = w @ drop (length w) s" by (auto simp add: prefix_def)
    from 1 False obtain ls where ls: "set ls \<subseteq> set white_space"
      "drop (leading_space s) s = concat ls @ TrimLeft (drop (leading_space s) s)"
      by blast
    have t: "TrimLeft s = TrimLeft (drop (leading_space s) s)"
      using False by (subst TrimLeft.simps) simp
    have "s = concat (w # ls) @ TrimLeft s"
      using s ls(2) t n by simp
    moreover have "set (w # ls) \<subseteq> set white_space" using mem ls(1) by simp
    ultimately show ?thesis by blast
  qed
qed

lemma TrimRight_decomp:
  "\<exists>rs. set rs \<subseteq> set white_space \<and> s = TrimRight s @ concat rs"
proof (induction s rule: TrimRight.induct)
  case (1 s)
  show ?case
  proof (cases "trailing_space s = 0")
    case True
    then have "s = TrimRight s @ concat []" by (simp add: TrimRight.simps)
    then show ?thesis by (metis empty_set empty_subsetI)
  next
    case False
    then obtain w where w: "find (\<lambda>w. suffix w s) white_space = Some w"
      by (auto simp add: trailing_space_def split: option.splits)
    then have mem: "w \<in> set white_space" and suf: "suffix w s"
      by (auto simp add: find_Some_iff)
    from w have n: "trailing_space s = length w" by (simp add: trailing_space_def)
    from suf have s: "s = take (length s - length w) s @ w" by (auto simp add: suffix_def)
    from 1 False obtain rs where rs: "set rs \<subseteq> set white_space"
      "take (length s - trailing_space s) s
         = TrimRight (take (length s - trailing_space s) s) @ concat rs"
      by blast
    have t: "TrimRight s = TrimRight (take (length s - trailing_space s) s)"
      using False by (subst TrimRight.simps) simp
    have "s = (TrimRight s @ concat rs) @ w"
      using s rs(2) t n by metis
    then have "s = TrimRight s @ concat (rs @ [w])" by simp
    moreover have "set (rs @ [w]) \<subseteq> set white_space" using mem rs(1) by simp
    ultimately show ?thesis by blast
  qed
qed

lemma TrimSpace_decomp:
  "\<exists>ls rs. set ls \<subseteq> set white_space \<and> set rs \<subseteq> set white_space
     \<and> s = concat ls @ TrimSpace s @ concat rs"
proof -
  obtain ls where ls: "set ls \<subseteq> set white_space" "s = concat ls @ TrimLeft s"
    using TrimLeft_decomp by blast
  obtain rs where rs: "set rs \<subseteq> set white_space"
    "TrimLeft s = TrimRight (TrimLeft s) @ concat rs"
    using TrimRight_decomp by blast
  have "s = concat ls @ TrimSpace s @ concat rs"
    unfolding TrimSpace_def using ls(2) rs(2) by metis
  with ls(1) rs(1) show ?thesis by blast
qed


subsection \<open>Filter matching\<close>

lemma map_index_fill_tagSet:
  "map_index (fill_tagSet tags m) k \<longleftrightarrow> k \<in> set tags \<or> map_index m k"
  by (induction tags arbitrary: m) (auto simp add: map_index_def)

lemma check_required_iff: "check_required m required \<longleftrightarrow> (\<forall>r \<in> set required. map_index m r)"
  by (induction required) auto

lemma map_index_empty: "\<not> map_index Map.empty k"
  by (simp add: map_index_def)

lemma containsAllTags_iff:
  "containsAllTags taskTags filterTags \<longleftrightarrow> set (elems filterTags) \<subseteq> set (elems taskTags)"
proof (cases "len filterTags = 0")
  case True
  then have "elems filterTags = []" by (cases filterTags) auto
  with True show ?thesis by (simp add: containsAllTags_def)
next
  case False
  then show ?thesis
    by (auto simp add: containsAllTags_def check_required_iff map_index_fill_tagSet
        map_index_empty)
qed

lemma len_0_iff: "len xs = 0 \<longleftrightarrow> xs = None \<or> xs = Some []"
  by (cases xs) auto

lemma tags_criterion:
  "(0 < len required \<and> \<not> containsAllTags carried required) \<longleftrightarrow>
   \<not> (required = None \<or> required = Some [] \<or> set (elems required) \<subseteq> set (elems carried))"
proof (cases "len required = 0")
  case True
  then have "required = None \<or> required = Some []" by (simp add: len_0_iff)
  then show ?thesis by auto
next
  case False
  then have "required \<noteq> None" "required \<noteq> Some []" by (auto simp add: len_0_iff)
  with False show ?thesis by (simp add: containsAllTags_iff)
qed

text \<open>
  Claim C1. For every filter \<open>f\<close> and task \<open>t\<close>, \<open>Matches\<close> returns true if and only if
  all three criteria hold: (1) the filter's status is unset or equals the task's status;
  (2) the filter's tag list is nil or empty, or every tag in it occurs in the task's tag
  list; (3) for each due-date bound that is set, the task has a due date and it lies within
  the bound, inclusively (so a task without a due date is rejected whenever a bound is set).
\<close>

theorem Matches_iff_criteria:
  "Matches f t \<longleftrightarrow>
     (TaskFilter.Status f = None \<or> TaskFilter.Status f = Some (Task.Status t))
   \<and> (TaskFilter.Tags f = None \<or> TaskFilter.Tags f = Some []
        \<or> set (elems (TaskFilter.Tags f)) \<subseteq> set (elems (Task.Tags t)))
   \<and> (\<forall>a. DueAfter f = Some a \<longrightarrow> (\<exists>d. DueDate t = Some d \<and> a \<le> d))
   \<and> (\<forall>b. DueBefore f = Some b \<longrightarrow> (\<exists>d. DueDate t = Some d \<and> d \<le> b))"
  unfolding Matches_def tags_criterion
  by (auto simp add: Before_def After_def split: option.splits)

theorem Matches_iff_criteria_witness:
  "DueAfter \<lparr>TaskFilter.Status = Some ''today'', TaskFilter.Tags = Some [''home'', ''urgent''],
       DueAfter = Some 10, DueBefore = Some 20, Limit = 1\<rparr> = Some 10
   \<and> DueBefore \<lparr>TaskFilter.Status = Some ''today'', TaskFilter.Tags = Some [''home'', ''urgent''],
       DueAfter = Some 10, DueBefore = Some 20, Limit = 1\<rparr> = Some 20
   \<and> Matches
       \<lparr>TaskFilter.Status = Some ''today'', TaskFilter.Tags = Some [''home'', ''urgent''],
         DueAfter = Some 10, DueBefore = Some 20, Limit = 1\<rparr>
       \<lparr>ID = Nil_UUID, CreatedAt = 5, Title = ''Buy milk'', Notes = [],
         Status = ''today'', Tags = Some [''urgent'', ''shop'', ''home''], DueDate = Some 20,
         CompletedAt = None, DeferredCount = 0\<rparr>
   \<and> \<not> Matches
       \<lparr>TaskFilter.Status = Some ''today'', TaskFilter.Tags = Some [''home'', ''urgent''],
         DueAfter = Some 10, DueBefore = Some 20, Limit = 1\<rparr>
       \<lparr>ID = Nil_UUID, CreatedAt = 5, Title = ''Buy milk'', Notes = [],
         Status = ''today'', Tags = Some [''urgent'', ''shop'', ''home''], DueDate = None,
         CompletedAt = None, DeferredCount = 0\<rparr>"
  by (simp add: Matches_iff_criteria)

text \<open>
  Claim C6. For every task, every filter and any two values \<open>a\<close> and \<open>b\<close> of the
  result-count cap \<open>Limit\<close>, \<open>Matches\<close> gives the same result with the cap set to \<open>a\<close> as
  with the cap set to \<open>b\<close>: the cap never influences whether a task matches.
\<close>

theorem Matches_ignores_Limit:
  "Matches (f\<lparr>Limit := a\<rparr>) t = Matches (f\<lparr>Limit := b\<rparr>) t"
  by (simp add: Matches_def)

subsection \<open>The task factory\<close>

lemma uuid_bytes_uuid_New:
  "uuid_bytes (uuid_New r) =
     (uuid_bytes r)[6 := (uuid_bytes r ! 6 AND 0x0f) OR 0x40,
                    8 := (uuid_bytes r ! 8 AND 0x3f) OR 0x80]"
  by (simp add: uuid_New_def Let_def make_UUID_inverse length_uuid_bytes)

lemma version_byte_nonzero: "(x AND 0x0f) OR 0x40 \<noteq> (0 :: 8 word)"
  by (simp add: or_eq_0_iff)

lemma uuid_New_not_empty: "\<not> IsEmpty (uuid_New r)"
proof
  assume "IsEmpty (uuid_New r)"
  then have "uuid_bytes (uuid_New r) = replicate 16 0"
    by (simp add: IsEmpty_def Nil_UUID_def make_UUID_inverse)
  then have "uuid_bytes (uuid_New r) ! 6 = 0" by simp
  then show False
    using version_byte_nonzero [of "uuid_bytes r ! 6"]
    by (simp add: uuid_bytes_uuid_New length_uuid_bytes)
qed

lemma TrimSpace_example:
  "TrimSpace (''  Buy milk '' @ [CHR 0x09, CHR 0xC2, CHR 0xA0]) = ''Buy milk''"
  by code_simp

lemma TrimSpace_blank: "TrimSpace ([CHR 0x20, CHR 0x09, CHR 0xE2, CHR 0x80, CHR 0x83]) = []"
  by code_simp

lemma version_nibble: "drop_bit 4 ((x AND 0x0f) OR 0x40) = (4 :: 8 word)"
proof -
  have "drop_bit 4 ((x AND mask 4) OR push_bit 6 1) = (push_bit 2 1 :: 8 word)"
    by (rule bit_eqI) (auto simp add: bit_simps)
  then show ?thesis by (simp add: fifteen_mask [symmetric])
qed

lemma variant_bits: "drop_bit 6 ((x AND 0x3f) OR 0x80) = (2 :: 8 word)"
proof -
  have m: "(0x3f :: 8 word) = mask 6" by (simp add: mask_eq_exp_minus_1)
  have "drop_bit 6 ((x AND mask 6) OR push_bit 7 1) = (push_bit 1 1 :: 8 word)"
    by (rule bit_eqI) (auto simp add: bit_simps)
  then show ?thesis by (simp add: m [symmetric])
qed

text \<open>
  Claim C2. For every title whose trimmed form is non-empty and every tag list, \<open>NewTask\<close>
  succeeds and returns a task whose status is pool, whose \<open>CreatedAt\<close> is the current time,
  whose notes are empty, whose \<open>DueDate\<close> and \<open>CompletedAt\<close> are unset, whose
  \<open>DeferredCount\<close> is 0 and whose identifier is the freshly generated one: its bytes are
  the sixteen bytes just read from the random source, with the version nibble set to 4 and
  the variant bits set to binary 10, so it is never the empty identifier.
\<close>

theorem NewTask_defaults:
  "TrimSpace title \<noteq> [] \<Longrightarrow>
   \<exists>task. NewTask e title tags = (Some task, None)
     \<and> Task.Status task = StatusPool \<and> Task.Status task = ''pool''
     \<and> CreatedAt task = time_Now e
     \<and> Notes task = []
     \<and> DueDate task = None \<and> CompletedAt task = None
     \<and> DeferredCount task = 0
     \<and> ID task = NewTaskID (rand_Read e) \<and> \<not> IsEmpty (ID task)
     \<and> uuid_bytes (ID task) =
         (uuid_bytes (rand_Read e))
           [6 := (uuid_bytes (rand_Read e) ! 6 AND 0x0f) OR 0x40,
            8 := (uuid_bytes (rand_Read e) ! 8 AND 0x3f) OR 0x80]
     \<and> drop_bit 4 (uuid_bytes (ID task) ! 6) = 4
     \<and> drop_bit 6 (uuid_bytes (ID task) ! 8) = 2"
  by (simp add: NewTask_def Let_def StatusPool_def NewTaskID_def uuid_New_not_empty
      uuid_bytes_uuid_New length_uuid_bytes version_nibble variant_bits)

theorem NewTask_defaults_witness:
  "TrimSpace (''  Buy milk '' @ [CHR 0x09, CHR 0xC2, CHR 0xA0]) \<noteq> []
   \<and> (\<exists>task. NewTask
          \<lparr>rand_Read = make_UUID [85, 14, 132, 0, 226, 155, 241, 212, 39, 22, 68, 102, 85, 68, 0, 7],
            time_Now = 1762160400000000000\<rparr>
          (''  Buy milk '' @ [CHR 0x09, CHR 0xC2, CHR 0xA0]) (Some [''home''])
            = (Some task, None)
     \<and> Task.Status task = StatusPool \<and> Task.Status task = ''pool''
     \<and> CreatedAt task = 1762160400000000000
     \<and> Notes task = []
     \<and> DueDate task = None \<and> CompletedAt task = None
     \<and> DeferredCount task = 0
     \<and> ID task = NewTaskID
          (make_UUID [85, 14, 132, 0, 226, 155, 241, 212, 39, 22, 68, 102, 85, 68, 0, 7])
     \<and> \<not> IsEmpty (ID task)
     \<and> uuid_bytes (ID task)
          = [85, 14, 132, 0, 226, 155, 65, 212, 167, 22, 68, 102, 85, 68, 0, 7]
     \<and> String_TaskID (ID task) = ''550e8400-e29b-41d4-a716-446655440007'')"
proof -
  let ?r = "make_UUID [85, 14, 132, 0, 226, 155, 241, 212, 39, 22, 68, 102, 85, 68, 0, 7]"
  have h: "TrimSpace (''  Buy milk '' @ [CHR 0x09, CHR 0xC2, CHR 0xA0]) \<noteq> []"
    by (simp only: TrimSpace_example) simp
  have b: "uuid_bytes ?r = [85, 14, 132, 0, 226, 155, 241, 212, 39, 22, 68, 102, 85, 68, 0, 7]"
    by (simp add: make_UUID_inverse)
  from NewTask_defaults [OF h, of "\<lparr>rand_Read = ?r, time_Now = 1762160400000000000\<rparr>" "Some [''home'']"]
  obtain task where t:
    "NewTask \<lparr>rand_Read = ?r, time_Now = 1762160400000000000\<rparr>
        (''  Buy milk '' @ [CHR 0x09, CHR 0xC2, CHR 0xA0]) (Some [''home'']) = (Some task, None)"
    "Task.Status task = StatusPool" "Task.Status task = ''pool''"
    "CreatedAt task = 1762160400000000000" "Notes task = []"
    "DueDate task = None" "CompletedAt task = None" "DeferredCount task = 0"
    "ID task = NewTaskID ?r" "\<not> IsEmpty (ID task)"
    "uuid_bytes (ID task) = (uuid_bytes ?r)
       [6 := (uuid_bytes ?r ! 6 AND 0x0f) OR 0x40, 8 := (uuid_bytes ?r ! 8 AND 0x3f) OR 0x80]"
    by auto
  from t(11) have bytes:
    "uuid_bytes (ID task) = [85, 14, 132, 0, 226, 155, 65, 212, 167, 22, 68, 102, 85, 68, 0, 7]"
    unfolding b by simp
  then have "String_TaskID (ID task) = ''550e8400-e29b-41d4-a716-446655440007''"
    by (simp add: String_TaskID_def String_UUID_def encodeHex_def hextable_def)
  with h t bytes show ?thesis by blast
qed

lemma NewTask_fails_iff:
  "(NewTask e title tags = (None, Some ErrEmptyTitle)) = (TrimSpace title = [])"
  by (simp add: NewTask_def Let_def)

lemma NewTask_error_iff:
  "(snd (NewTask e title tags) = Some ErrEmptyTitle) = (TrimSpace title = [])"
  by (simp add: NewTask_def Let_def)

lemma NewTask_Title:
  "fst (NewTask e title tags) = Some task \<Longrightarrow>
     snd (NewTask e title tags) = None \<and> Title task = TrimSpace title \<and> Title task \<noteq> []"
  by (auto simp add: NewTask_def Let_def split: if_splits)

text \<open>
  Claim C3. For every title, \<open>NewTask\<close> fails with \<open>ErrEmptyTitle\<close> if and only if the
  title trims to the empty string; when it succeeds the stored title is the trimmed title:
  the input with leading and trailing white space removed and everything between kept. So
  every constructed task has a title that is non-empty after trimming.
\<close>

theorem NewTask_title_validation:
  "(NewTask e title tags = (None, Some ErrEmptyTitle)) = (TrimSpace title = [])
   \<and> (snd (NewTask e title tags) = Some ErrEmptyTitle) = (TrimSpace title = [])
   \<and> (\<forall>task. fst (NewTask e title tags) = Some task \<longrightarrow>
          snd (NewTask e title tags) = None
        \<and> Title task = TrimSpace title
        \<and> Title task \<noteq> [] \<and> TrimSpace (Title task) \<noteq> []
        \<and> leading_space (Title task) = 0 \<and> trailing_space (Title task) = 0)
   \<and> (\<exists>ls rs. set ls \<subseteq> set white_space \<and> set rs \<subseteq> set white_space
          \<and> title = concat ls @ TrimSpace title @ concat rs)"
proof -
  have "snd (NewTask e title tags) = None
        \<and> Title task = TrimSpace title
        \<and> Title task \<noteq> [] \<and> TrimSpace (Title task) \<noteq> []
        \<and> leading_space (Title task) = 0 \<and> trailing_space (Title task) = 0"
    if "fst (NewTask e title tags) = Some task" for task
    using NewTask_Title [OF that]
    by (auto simp add: TrimSpace_idem leading_space_TrimSpace trailing_space_TrimSpace)
  then show ?thesis
    using NewTask_fails_iff NewTask_error_iff TrimSpace_decomp by blast
qed

theorem NewTask_title_validation_witness:
  "fst (NewTask \<lparr>rand_Read = Nil_UUID, time_Now = 1762160400000000000\<rparr>
          (''  Buy milk '' @ [CHR 0x09, CHR 0xC2, CHR 0xA0]) None)
     = Some \<lparr>ID = NewTaskID Nil_UUID, CreatedAt = 1762160400000000000, Title = ''Buy milk'',
             Notes = [], Status = ''pool'', Tags = None, DueDate = None,
             CompletedAt = None, DeferredCount = 0\<rparr>
   \<and> snd (NewTask \<lparr>rand_Read = Nil_UUID, time_Now = 1762160400000000000\<rparr>
          (''  Buy milk '' @ [CHR 0x09, CHR 0xC2, CHR 0xA0]) None) = None
   \<and> TrimSpace ''Buy milk'' \<noteq> []
   \<and> leading_space ''Buy milk'' = 0 \<and> trailing_space ''Buy milk'' = 0
   \<and> NewTask \<lparr>rand_Read = Nil_UUID, time_Now = 1762160400000000000\<rparr>
          [CHR 0x20, CHR 0x09, CHR 0xE2, CHR 0x80, CHR 0x83] None
     = (None, Some ErrEmptyTitle)"
proof -
  let ?e = "\<lparr>rand_Read = Nil_UUID, time_Now = 1762160400000000000\<rparr>"
  let ?t = "\<lparr>ID = NewTaskID Nil_UUID, CreatedAt = 1762160400000000000, Title = ''Buy milk'',
             Notes = [], Status = ''pool'', Tags = None, DueDate = None,
             CompletedAt = None, DeferredCount = 0\<rparr>"
  have a: "fst (NewTask ?e (''  Buy milk '' @ [CHR 0x09, CHR 0xC2, CHR 0xA0]) None) = Some ?t"
    unfolding NewTask_def Let_def TrimSpace_example by (simp add: StatusPool_def)
  have b: "TrimSpace [CHR 0x20, CHR 0x09, CHR 0xE2, CHR 0x80, CHR 0x83] = []"
    by (rule TrimSpace_blank)
  from a NewTask_title_validation
    [of ?e "''  Buy milk '' @ [CHR 0x09, CHR 0xC2, CHR 0xA0]" None]
  have "snd (NewTask ?e (''  Buy milk '' @ [CHR 0x09, CHR 0xC2, CHR 0xA0]) None) = None
      \<and> TrimSpace (Title ?t) \<noteq> [] \<and> leading_space (Title ?t) = 0
      \<and> trailing_space (Title ?t) = 0"
    by blast
  moreover from b NewTask_title_validation
    [of ?e "[CHR 0x20, CHR 0x09, CHR 0xE2, CHR 0x80, CHR 0x83]" None]
  have "NewTask ?e [CHR 0x20, CHR 0x09, CHR 0xE2, CHR 0x80, CHR 0x83] None
      = (None, Some ErrEmptyTitle)"
    by blast
  ultimately show ?thesis using a by simp
qed

subsection \<open>Lifecycle transitions\<close>

text \<open>
  Claim C5. For every task whose status is done, \<open>pick()\<close> and \<open>defer()\<close> each fail with the
  invalid-state-transition error, which differs from every other sentinel, and leave the
  task entirely unchanged; the only transition permitted out of done is the identical
  idempotent one, \<open>complete()\<close>, which succeeds and changes nothing.
\<close>

theorem done_task_rejects_pick_and_defer:
  "Task.Status t = StatusDone \<Longrightarrow>
     Pick t = Some (t, Some ErrInvalidStateTransition)
   \<and> Defer t = Some (t, Some ErrInvalidStateTransition)
   \<and> Complete now t = (t, None)
   \<and> ErrInvalidStateTransition
        \<notin> set [ErrTaskNotFound, ErrInvalidStatus, ErrEmptyTitle, ErrDuplicateTaskID]"
  by (simp add: Pick_def Defer_def Complete_def StatusDone_def StatusPool_def StatusToday_def
      sentinel_addresses)

theorem done_task_rejects_pick_and_defer_witness:
  "Task.Status \<lparr>ID = Nil_UUID, CreatedAt = 5, Title = ''Buy milk'', Notes = [],
       Status = ''done'', Tags = None, DueDate = None, CompletedAt = Some 9,
       DeferredCount = 2\<rparr> = StatusDone
   \<and> Pick \<lparr>ID = Nil_UUID, CreatedAt = 5, Title = ''Buy milk'', Notes = [],
       Status = ''done'', Tags = None, DueDate = None, CompletedAt = Some 9,
       DeferredCount = 2\<rparr>
     = Some (\<lparr>ID = Nil_UUID, CreatedAt = 5, Title = ''Buy milk'', Notes = [],
       Status = ''done'', Tags = None, DueDate = None, CompletedAt = Some 9,
       DeferredCount = 2\<rparr>, Some ErrInvalidStateTransition)
   \<and> Defer \<lparr>ID = Nil_UUID, CreatedAt = 5, Title = ''Buy milk'', Notes = [],
       Status = ''done'', Tags = None, DueDate = None, CompletedAt = Some 9,
       DeferredCount = 2\<rparr>
     = Some (\<lparr>ID = Nil_UUID, CreatedAt = 5, Title = ''Buy milk'', Notes = [],
       Status = ''done'', Tags = None, DueDate = None, CompletedAt = Some 9,
       DeferredCount = 2\<rparr>, Some ErrInvalidStateTransition)
   \<and> Complete 11 \<lparr>ID = Nil_UUID, CreatedAt = 5, Title = ''Buy milk'', Notes = [],
       Status = ''done'', Tags = None, DueDate = None, CompletedAt = Some 9,
       DeferredCount = 2\<rparr>
     = (\<lparr>ID = Nil_UUID, CreatedAt = 5, Title = ''Buy milk'', Notes = [],
       Status = ''done'', Tags = None, DueDate = None, CompletedAt = Some 9,
       DeferredCount = 2\<rparr>, None)"
proof -
  let ?t = "\<lparr>ID = Nil_UUID, CreatedAt = 5, Title = ''Buy milk'', Notes = [],
       Status = ''done'', Tags = None, DueDate = None, CompletedAt = Some 9,
       DeferredCount = 2\<rparr>"
  have h: "Task.Status ?t = StatusDone" by (simp add: StatusDone_def)
  show ?thesis
    using h done_task_rejects_pick_and_defer [OF h, of 11] by simp
qed

end
